theory Spec2Isabelle
  imports Complex_Main
begin

section \<open>Throat length models of OpenPNM (Geometry/models/throat\_length.py)\<close>

text \<open>
  The two functions \<^verbatim>\<open>straight\<close> and \<^verbatim>\<open>voronoi\<close> are embedded as HOL functions.
  Conventions of the embedding:
  \<^item> a float array is a list of \<open>real\<close> (exact arithmetic stands for float64; NaN and
    infinities are outside the model), an integer array a list of \<open>int\<close>, an N x 3
    array a list of triples;
  \<^item> an integer index into an array follows numpy: \<open>-n \<le> i < 0\<close> counts from the end,
    anything outside \<open>-n \<le> i < n\<close> raises IndexError;
  \<^item> every exception of the source is a value of \<open>error\<close>, returned as \<open>Inl\<close>;
  \<^item> the objects the call receives are returned with the result, so that what the
    call does to them (one logger record, nothing else) is part of the model.
\<close>

subsection \<open>Data\<close>

datatype error =
    KeyError          \<comment> \<open>\<^verbatim>\<open>network[name]\<close> with an absent name\<close>
  | IndexError        \<comment> \<open>an array index out of range\<close>
  | NotInList         \<comment> \<open>ValueError of \<^verbatim>\<open>list.index\<close>: the value is not in the list\<close>
  | BroadcastError    \<comment> \<open>ValueError of numpy: operands could not be broadcast together\<close>

type_synonym point = "real \<times> real \<times> real"

text \<open>
  The network: \<^verbatim>\<open>network['throat.conns']\<close>, \<^verbatim>\<open>network['pore.coords']\<close>, the other
  named pore properties \<^verbatim>\<open>network[name]\<close>, and the method \<^verbatim>\<open>network.throats(label)\<close>.
  The method belongs to the network class, which is outside these sources: its result
  is a parameter of the model.
\<close>

record network =
  throat_conns :: "(int \<times> int) list"
  pore_coords :: "point list"
  props :: "string \<rightharpoonup> real list"
  throats :: "string \<Rightarrow> int list"

text \<open>
  The geometry: its name, \<^verbatim>\<open>geometry['throat.map']\<close>, \<^verbatim>\<open>geometry['pore.map']\<close>,
  \<^verbatim>\<open>geometry['pore.centroid']\<close>, \<^verbatim>\<open>geometry['throat.centroid']\<close>, and the warnings
  that \<^verbatim>\<open>geometry._logger\<close> has received so far.
\<close>

record geometry =
  name :: string
  throat_map :: "int list"
  pore_map :: "int list"
  pore_centroid :: "point list"
  throat_centroid :: "point list"
  logger :: "string list"

text \<open>What a call leaves behind: the value or the exception, and the two objects.\<close>

record outcome =
  result :: "error + real list"
  net_after :: network
  geo_after :: geometry

subsection \<open>Array primitives\<close>

definition np_get :: "'a list \<Rightarrow> int \<Rightarrow> error + 'a" where
  "np_get xs i =
     (let n = int (length xs)
      in if 0 \<le> i \<and> i < n then Inr (xs ! nat i)
         else if - n \<le> i \<and> i < 0 then Inr (xs ! nat (n + i))
         else Inl IndexError)"

text \<open>\<^verbatim>\<open>xs[idx]\<close> with an integer array or list \<open>idx\<close>: a new array, one entry per index.\<close>

fun np_take :: "'a list \<Rightarrow> int list \<Rightarrow> error + 'a list" where
  "np_take xs [] = Inr []"
| "np_take xs (i # rest) =
     (case np_get xs i of
        Inl e \<Rightarrow> Inl e
      | Inr x \<Rightarrow> (case np_take xs rest of Inl e \<Rightarrow> Inl e | Inr ys \<Rightarrow> Inr (x # ys)))"

text \<open>Sequencing: an exception ends the computation.\<close>

definition and_then :: "error + 'a \<Rightarrow> ('a \<Rightarrow> error + 'b) \<Rightarrow> error + 'b" where
  "and_then r f = (case r of Inl e \<Rightarrow> Inl e | Inr x \<Rightarrow> f x)"

definition psub :: "point \<Rightarrow> point \<Rightarrow> point" where
  "psub a b = (case a of (ax, ay, az) \<Rightarrow> case b of (bx, by, bz) \<Rightarrow> (ax - bx, ay - by, az - bz))"

text \<open>\<^verbatim>\<open>_sp.linalg.norm(v)\<close> of one row, also \<^verbatim>\<open>_sp.sqrt(_sp.sum(v**2))\<close>.\<close>

definition norm3 :: "point \<Rightarrow> real" where
  "norm3 a = (case a of (x, y, z) \<Rightarrow> sqrt (x\<^sup>2 + y\<^sup>2 + z\<^sup>2))"

text \<open>
  \<^verbatim>\<open>A - B\<close> on two N x 3 arrays: row by row when the row counts agree, a single row is
  stretched over the other operand, any other pair of shapes is refused.
\<close>

definition broadcast_sub :: "point list \<Rightarrow> point list \<Rightarrow> error + point list" where
  "broadcast_sub A B =
     (if length A = length B then Inr (map2 psub A B)
      else if length A = 1 then Inr (map (psub (hd A)) B)
      else if length B = 1 then Inr (map (\<lambda>a. psub a (hd B)) A)
      else Inl BroadcastError)"

subsection \<open>straight\<close>

definition default_pore_diameter :: string where
  "default_pore_diameter = ''pore.diameter''"

definition floor_length :: real where
  "floor_length = 1 / 10 ^ 9"

definition negative_warning :: string where
  "negative_warning =
     ''Negative throat lengths are calculated. Arbitrary positive length assigned (1e9 meters)''"

text \<open>Lines 22 and 25, one throat: \<^verbatim>\<open>E - (D1 + D2) / 2\<close>.\<close>

definition raw_length :: "point \<Rightarrow> point \<Rightarrow> real \<Rightarrow> real \<Rightarrow> real" where
  "raw_length c1 c2 d1 d2 = norm3 (psub c1 c2) - (d1 + d2) / 2"

fun raw_lengths :: "point list \<Rightarrow> point list \<Rightarrow> real list \<Rightarrow> real list \<Rightarrow> real list" where
  "raw_lengths (c1 # C1) (c2 # C2) (d1 # D1) (d2 # D2) =
     raw_length c1 c2 d1 d2 # raw_lengths C1 C2 D1 D2"
| "raw_lengths _ _ _ _ = []"

text \<open>Lines 27 to 30: the test, the warning, and the assignment to the negative entries.\<close>

definition clamp :: "geometry \<Rightarrow> real list \<Rightarrow> geometry \<times> real list" where
  "clamp geo v =
     (if list_ex (\<lambda>x. x < 0) v
      then (geo\<lparr>logger := logger geo @ [negative_warning]\<rparr>,
            map (\<lambda>x. if x < 0 then floor_length else x) v)
      else (geo, v))"

definition raise :: "network \<Rightarrow> geometry \<Rightarrow> error \<Rightarrow> outcome" where
  "raise net geo e = \<lparr>result = Inl e, net_after = net, geo_after = geo\<rparr>"

text \<open>Lines 17 to 26: the lengths of all throats of the network, then those of the geometry.\<close>

definition straight_values :: "network \<Rightarrow> geometry \<Rightarrow> string \<Rightarrow> error + real list" where
  "straight_values net geo pore_diameter =
     (let ts = throats net (name geo);
          pore1 = map fst (throat_conns net);
          pore2 = map snd (throat_conns net)
      in and_then (np_take (pore_coords net) pore1) (\<lambda>C1.
         and_then (np_take (pore_coords net) pore2) (\<lambda>C2.
         and_then (case props net pore_diameter of None \<Rightarrow> Inl KeyError | Some D \<Rightarrow> Inr D) (\<lambda>D.
         and_then (np_take D pore1) (\<lambda>D1.
         and_then (np_take D pore2) (\<lambda>D2.
         np_take (raw_lengths C1 C2 D1 D2) ts))))))"

definition straight :: "network \<Rightarrow> geometry \<Rightarrow> string \<Rightarrow> outcome" where
  "straight net geo pore_diameter =
     (case straight_values net geo pore_diameter of
        Inl e \<Rightarrow> raise net geo e
      | Inr v \<Rightarrow> (case clamp geo v of (geo', v') \<Rightarrow>
                   \<lparr>result = Inr v', net_after = net, geo_after = geo'\<rparr>))"

subsection \<open>voronoi\<close>

text \<open>\<^verbatim>\<open>lst.index(p)\<close>: the position of the first entry equal to \<open>p\<close>.\<close>

fun index_of :: "int list \<Rightarrow> int \<Rightarrow> error + nat" where
  "index_of [] p = Inl NotInList"
| "index_of (x # xs) p =
     (if x = p then Inr 0
      else case index_of xs p of Inl e \<Rightarrow> Inl e | Inr k \<Rightarrow> Inr (Suc k))"

text \<open>Lines 49 to 52, one of the two loops: every pore of a column is looked up in turn.\<close>

fun lookup_all :: "int list \<Rightarrow> int list \<Rightarrow> error + int list" where
  "lookup_all pm [] = Inr []"
| "lookup_all pm (p # ps) =
     (case index_of pm p of
        Inl e \<Rightarrow> Inl e
      | Inr k \<Rightarrow> (case lookup_all pm ps of Inl e \<Rightarrow> Inl e | Inr ks \<Rightarrow> Inr (int k # ks)))"

text \<open>Lines 59 and 60: the loop over \<^verbatim>\<open>range(len(connections))\<close>.\<close>

fun norm_loop :: "point list \<Rightarrow> point list \<Rightarrow> nat list \<Rightarrow> error + real list" where
  "norm_loop v1 v2 [] = Inr []"
| "norm_loop v1 v2 (i # rest) =
     and_then (np_get v1 (int i)) (\<lambda>a.
     and_then (np_get v2 (int i)) (\<lambda>b.
     and_then (norm_loop v1 v2 rest) (\<lambda>vs.
     Inr ((norm3 a + norm3 b) # vs))))"

definition voronoi_result :: "network \<Rightarrow> geometry \<Rightarrow> error + real list" where
  "voronoi_result net geo =
     and_then (np_take (throat_conns net) (throat_map geo)) (\<lambda>connections.
     and_then (lookup_all (pore_map geo) (map fst connections)) (\<lambda>geom_pore1.
     and_then (lookup_all (pore_map geo) (map snd connections)) (\<lambda>geom_pore2.
     and_then (np_take (pore_centroid geo) geom_pore1) (\<lambda>P1.
     and_then (broadcast_sub (throat_centroid geo) P1) (\<lambda>v1.
     and_then (np_take (pore_centroid geo) geom_pore2) (\<lambda>P2.
     and_then (broadcast_sub (throat_centroid geo) P2) (\<lambda>v2.
     norm_loop v1 v2 [0 ..< length connections])))))))"

definition voronoi :: "network \<Rightarrow> geometry \<Rightarrow> outcome" where
  "voronoi net geo = \<lparr>result = voronoi_result net geo, net_after = net, geo_after = geo\<rparr>"

subsection \<open>Vocabulary of the properties\<close>

text \<open>
  Closed forms of the source's index arithmetic, used to state and prove the properties:
  the position numpy reads for an index, the range it accepts, the position
  \<^verbatim>\<open>list.index\<close> returns, and the row a broadcast subtraction reads.
\<close>

definition first_index :: "int list \<Rightarrow> int \<Rightarrow> nat" where
  "first_index pm p = length (takeWhile (\<lambda>x. x \<noteq> p) pm)"

definition resolve :: "nat \<Rightarrow> int \<Rightarrow> nat" where
  "resolve n i = nat (if i < 0 then int n + i else i)"

definition in_bounds :: "nat \<Rightarrow> int \<Rightarrow> bool" where
  "in_bounds n i \<longleftrightarrow> - int n \<le> i \<and> i < int n"

definition row :: "nat \<Rightarrow> nat \<Rightarrow> nat" where
  "row M k = (if M = 1 then 0 else k)"

definition broadcastable :: "nat \<Rightarrow> nat \<Rightarrow> bool" where
  "broadcastable M K \<longleftrightarrow> M = K \<or> M = 1 \<or> K = 1"

text \<open>The throat at position \<open>k\<close> of \<^verbatim>\<open>throat.map\<close>: its connection and its length.\<close>

definition conn_at :: "network \<Rightarrow> int \<Rightarrow> int \<times> int" where
  "conn_at net t = throat_conns net ! resolve (length (throat_conns net)) t"

definition entry :: "network \<Rightarrow> geometry \<Rightarrow> nat \<Rightarrow> real" where
  "entry net geo k =
     (let c = conn_at net (throat_map geo ! k);
          tc = throat_centroid geo ! row (length (throat_centroid geo)) k
      in norm3 (psub tc (pore_centroid geo ! first_index (pore_map geo) (fst c)))
       + norm3 (psub tc (pore_centroid geo ! first_index (pore_map geo) (snd c))))"

definition mapped :: "network \<Rightarrow> geometry \<Rightarrow> int \<Rightarrow> bool" where
  "mapped net geo t \<longleftrightarrow>
     fst (conn_at net t) \<in> set (pore_map geo) \<and> snd (conn_at net t) \<in> set (pore_map geo)"

definition has_centroids :: "network \<Rightarrow> geometry \<Rightarrow> int \<Rightarrow> bool" where
  "has_centroids net geo t \<longleftrightarrow>
     first_index (pore_map geo) (fst (conn_at net t)) < length (pore_centroid geo) \<and>
     first_index (pore_map geo) (snd (conn_at net t)) < length (pore_centroid geo)"

definition shapes_ok :: "geometry \<Rightarrow> bool" where
  "shapes_ok geo \<longleftrightarrow>
     broadcastable (length (throat_centroid geo)) (length (throat_map geo)) \<and>
     (length (throat_map geo) = 1 \<longrightarrow> 1 \<le> length (throat_centroid geo))"

text \<open>
  Well-formed input of \<^verbatim>\<open>straight\<close>: the diameter property exists and has one value
  per pore, every connection names two pores of the network, every throat of the
  geometry is a throat of the network.
\<close>

definition straight_wf :: "network \<Rightarrow> geometry \<Rightarrow> string \<Rightarrow> bool" where
  "straight_wf net geo pd =
     (case props net pd of
        None \<Rightarrow> False
      | Some D \<Rightarrow>
          length D = length (pore_coords net) \<and>
          list_all (\<lambda>(a, b). 0 \<le> a \<and> a < int (length D) \<and> 0 \<le> b \<and> b < int (length D))
            (throat_conns net) \<and>
          list_all (\<lambda>t. 0 \<le> t \<and> t < int (length (throat_conns net))) (throats net (name geo)))"

text \<open>
  Well-formed input of \<^verbatim>\<open>voronoi\<close>: every entry of \<^verbatim>\<open>throat.map\<close> is a throat of the
  network, both pores of each such throat occur in \<^verbatim>\<open>pore.map\<close>, and the centroid
  arrays have one row per entry of their map.
\<close>

definition throats_in_range :: "network \<Rightarrow> geometry \<Rightarrow> bool" where
  "throats_in_range net geo =
     list_all (\<lambda>t. 0 \<le> t \<and> t < int (length (throat_conns net))) (throat_map geo)"

definition pores_mapped :: "network \<Rightarrow> geometry \<Rightarrow> bool" where
  "pores_mapped net geo =
     list_all (\<lambda>t. fst (throat_conns net ! nat t) \<in> set (pore_map geo) \<and>
                    snd (throat_conns net ! nat t) \<in> set (pore_map geo))
       (throat_map geo)"

definition centroids_match :: "geometry \<Rightarrow> bool" where
  "centroids_match geo \<longleftrightarrow>
     length (pore_centroid geo) = length (pore_map geo) \<and>
     length (throat_centroid geo) = length (throat_map geo)"

definition voronoi_wf :: "network \<Rightarrow> geometry \<Rightarrow> bool" where
  "voronoi_wf net geo \<longleftrightarrow>
     throats_in_range net geo \<and> pores_mapped net geo \<and> centroids_match geo"

subsection \<open>Variants of the input and of the index translation\<close>

text \<open>The network with the two endpoints of throat \<open>t\<close> exchanged in \<^verbatim>\<open>throat.conns\<close>.\<close>

definition swap_conn :: "network \<Rightarrow> nat \<Rightarrow> network" where
  "swap_conn net t =
     net\<lparr>throat_conns :=
           (throat_conns net)[t := (snd (throat_conns net ! t), fst (throat_conns net ! t))]\<rparr>"





subsection \<open>Sample networks\<close>

text \<open>
  Two pores at (0,0,0) and (3,0,0) with the same diameter \<open>d\<close> and one throat between
  them, owned by the geometry.
\<close>

definition two_pore_net :: "real \<Rightarrow> network" where
  "two_pore_net d =
     \<lparr>throat_conns = [(0, 1)],
      pore_coords = [(0, 0, 0), (3, 0, 0)],
      props = [''pore.diameter'' \<mapsto> [d, d]],
      throats = (\<lambda>label. [0])\<rparr>"

definition two_pore_geo :: geometry where
  "two_pore_geo =
     \<lparr>name = ''geo'', throat_map = [0], pore_map = [0, 1],
      pore_centroid = [(0, 0, 0), (3, 0, 0)], throat_centroid = [(1, 0, 0)], logger = []\<rparr>"

text \<open>
  Three pores and two throats. The geometry \<open>upper_geo\<close> owns throat 1 only and numbers
  its pores in another order than the network; \<open>whole_geo\<close> owns both throats;
  \<open>orphan_geo\<close> is \<open>upper_geo\<close> without pore 0, an endpoint of its throat.
\<close>

definition three_pore_net :: "real \<Rightarrow> network" where
  "three_pore_net d =
     \<lparr>throat_conns = [(0, 1), (0, 2)],
      pore_coords = [(0, 0, 0), (1, 0, 0), (0, 5, 0)],
      props = [''pore.diameter'' \<mapsto> [d, d, d]],
      throats = (\<lambda>label. if label = ''upper'' then [1] else [0, 1])\<rparr>"

definition upper_geo :: geometry where
  "upper_geo =
     \<lparr>name = ''upper'', throat_map = [1], pore_map = [2, 0],
      pore_centroid = [(0, 0, 0), (3, 4, 0)], throat_centroid = [(0, 4, 0)], logger = []\<rparr>"

definition whole_geo :: geometry where
  "whole_geo =
     \<lparr>name = ''whole'', throat_map = [0, 1], pore_map = [0, 1, 2],
      pore_centroid = [(0, 0, 0), (1, 0, 0), (0, 5, 0)],
      throat_centroid = [(1, 0, 0), (0, 1, 0)], logger = []\<rparr>"



section \<open>Properties\<close>

subsection \<open>Sequencing and arrays\<close>

lemma and_then_Inr [simp]: "and_then (Inr x) f = f x"
  by (simp add: and_then_def)

lemma and_then_Inl [simp]: "and_then (Inl e) f = Inl e"
  by (simp add: and_then_def)

lemma and_then_eq_Inr:
  "and_then r f = Inr y \<longleftrightarrow> (\<exists>x. r = Inr x \<and> f x = Inr y)"
  by (cases r) simp_all

lemma np_get_in_range:
  "0 \<le> i \<Longrightarrow> i < int (length xs) \<Longrightarrow> np_get xs i = Inr (xs ! nat i)"
  by (simp add: np_get_def)

lemma np_get_nat [simp]:
  "np_get xs (int k) = (if k < length xs then Inr (xs ! k) else Inl IndexError)"
  by (simp add: np_get_def)

lemma np_take_in_range:
  "list_all (\<lambda>i. 0 \<le> i \<and> i < int (length xs)) idx \<Longrightarrow>
   np_take xs idx = Inr (map (\<lambda>i. xs ! nat i) idx)"
  by (induction idx) (simp_all add: np_get_in_range)

lemma raw_lengths_length:
  "length (raw_lengths C1 C2 D1 D2) = min (min (length C1) (length C2)) (min (length D1) (length D2))"
  by (induction C1 C2 D1 D2 rule: raw_lengths.induct) simp_all

lemma raw_lengths_nth:
  "k < length (raw_lengths C1 C2 D1 D2) \<Longrightarrow>
   raw_lengths C1 C2 D1 D2 ! k = raw_length (C1 ! k) (C2 ! k) (D1 ! k) (D2 ! k)"
proof (induction C1 C2 D1 D2 arbitrary: k rule: raw_lengths.induct)
  case (1 c1 C1 c2 C2 d1 D1 d2 D2)
  then show ?case by (cases k) simp_all
qed simp_all

lemma clamp_values:
  "snd (clamp geo v) = map (\<lambda>x. if x < 0 then floor_length else x) v"
  by (auto simp: clamp_def list_ex_iff intro: map_idI[symmetric])

lemma clamp_logger:
  "logger (fst (clamp geo v)) =
     logger geo @ (if list_ex (\<lambda>x. x < 0) v then [negative_warning] else [])"
  by (simp add: clamp_def)

lemma straight_Inr:
  assumes "straight_values net geo pd = Inr v"
  shows "straight net geo pd =
    \<lparr>result = Inr (snd (clamp geo v)), net_after = net, geo_after = fst (clamp geo v)\<rparr>"
  using assms by (cases "clamp geo v") (simp add: straight_def)

lemma straight_Inl:
  "straight_values net geo pd = Inl e \<Longrightarrow> straight net geo pd = raise net geo e"
  by (simp add: straight_def)

lemma result_straight:
  "result (straight net geo pd) =
     (case straight_values net geo pd of Inl e \<Rightarrow> Inl e
      | Inr v \<Rightarrow> Inr (map (\<lambda>x. if x < 0 then floor_length else x) v))"
  by (cases "straight_values net geo pd")
     (simp_all add: straight_Inl straight_Inr raise_def clamp_values)

lemma straight_values_wf:
  assumes wf: "straight_wf net geo pd" and D: "props net pd = Some D"
  shows "straight_values net geo pd =
    Inr (map (\<lambda>t. case throat_conns net ! nat t of (a, b) \<Rightarrow>
                raw_length (pore_coords net ! nat a) (pore_coords net ! nat b)
                           (D ! nat a) (D ! nat b))
         (throats net (name geo)))"
proof -
  let ?cs = "throat_conns net"
  let ?C = "pore_coords net"
  from wf D have len: "length D = length ?C"
    and cs: "list_all (\<lambda>(a, b). 0 \<le> a \<and> a < int (length D) \<and> 0 \<le> b \<and> b < int (length D)) ?cs"
    and ts: "list_all (\<lambda>t. 0 \<le> t \<and> t < int (length ?cs)) (throats net (name geo))"
    by (auto simp: straight_wf_def)
  from cs have r1: "list_all (\<lambda>i. 0 \<le> i \<and> i < int (length D)) (map fst ?cs)"
    and r2: "list_all (\<lambda>i. 0 \<le> i \<and> i < int (length D)) (map snd ?cs)"
    by (auto simp: list_all_iff)
  let ?raw = "raw_lengths (map (\<lambda>i. ?C ! nat i) (map fst ?cs)) (map (\<lambda>i. ?C ! nat i) (map snd ?cs))
                (map (\<lambda>i. D ! nat i) (map fst ?cs)) (map (\<lambda>i. D ! nat i) (map snd ?cs))"
  have lraw: "length ?raw = length ?cs"
    by (simp add: raw_lengths_length)
  have sv: "straight_values net geo pd = np_take ?raw (throats net (name geo))"
    using r1 r2 np_take_in_range[of D] np_take_in_range[of ?C]
    by (simp add: straight_values_def Let_def D len)
  have "np_take ?raw (throats net (name geo)) = Inr (map (\<lambda>i. ?raw ! nat i) (throats net (name geo)))"
    using ts by (intro np_take_in_range) (simp only: lraw)
  moreover have "map (\<lambda>i. ?raw ! nat i) (throats net (name geo)) =
     map (\<lambda>t. case ?cs ! nat t of (a, b) \<Rightarrow>
                raw_length (?C ! nat a) (?C ! nat b) (D ! nat a) (D ! nat b))
         (throats net (name geo))"
  proof (rule map_cong[OF refl])
    fix t assume "t \<in> set (throats net (name geo))"
    with ts have t: "nat t < length ?cs" by (auto simp: list_all_iff)
    then have "?raw ! nat t = raw_length (?C ! nat (fst (?cs ! nat t))) (?C ! nat (snd (?cs ! nat t)))
         (D ! nat (fst (?cs ! nat t))) (D ! nat (snd (?cs ! nat t)))"
      using lraw by (simp add: raw_lengths_nth del: map_map)
    then show "?raw ! nat t = (case ?cs ! nat t of (a, b) \<Rightarrow>
                raw_length (?C ! nat a) (?C ! nat b) (D ! nat a) (D ! nat b))"
      by (simp add: case_prod_beta)
  qed
  ultimately show ?thesis using sv by simp
qed

lemma two_pore_wf: "straight_wf (two_pore_net d) two_pore_geo default_pore_diameter"
  by (simp add: straight_wf_def two_pore_net_def two_pore_geo_def default_pore_diameter_def)

lemma sqrt_9: "sqrt 9 = 3"
  by (rule real_sqrt_unique) simp_all

lemma sqrt_16: "sqrt 16 = 4"
  by (rule real_sqrt_unique) simp_all

lemma two_pore_values:
  "straight_values (two_pore_net d) two_pore_geo default_pore_diameter = Inr [3 - d]"
  by (simp add: straight_values_def two_pore_net_def two_pore_geo_def default_pore_diameter_def
      np_get_def raw_length_def norm3_def psub_def sqrt_9)

subsection \<open>straight: the lengths it returns\<close>

text \<open>
  Claim C1. On a well-formed network and geometry, \<^verbatim>\<open>straight\<close> returns one value per
  throat of the geometry, in the order of \<^verbatim>\<open>network.throats(geometry.name)\<close>. Before
  the clamp, the value of a throat is the Euclidean distance between the coordinates of
  its two pores minus the mean of their two diameters; the returned vector is that one
  with the negative entries replaced. For two pores at (0,0,0) and (3,0,0) of diameter
  1 and one throat between them the result is 2.
\<close>

theorem straight_lengths:
  "(straight_wf net geo pd \<longrightarrow> props net pd = Some D \<longrightarrow>
     (\<exists>raw. straight_values net geo pd = Inr raw \<and>
        result (straight net geo pd) = Inr (map (\<lambda>x. if x < 0 then floor_length else x) raw) \<and>
        length raw = length (throats net (name geo)) \<and>
        (\<forall>i a b x1 y1 z1 x2 y2 z2.
            i < length (throats net (name geo)) \<longrightarrow>
            throat_conns net ! nat (throats net (name geo) ! i) = (a, b) \<longrightarrow>
            pore_coords net ! nat a = (x1, y1, z1) \<longrightarrow>
            pore_coords net ! nat b = (x2, y2, z2) \<longrightarrow>
            raw ! i = sqrt ((x1 - x2)\<^sup>2 + (y1 - y2)\<^sup>2 + (z1 - z2)\<^sup>2)
                      - (D ! nat a + D ! nat b) / 2))) \<and>
   result (straight (two_pore_net 1) two_pore_geo default_pore_diameter) = Inr [2]"
proof (intro conjI impI)
  assume wf: "straight_wf net geo pd" and D: "props net pd = Some D"
  let ?raw = "map (\<lambda>t. case throat_conns net ! nat t of (a, b) \<Rightarrow>
                raw_length (pore_coords net ! nat a) (pore_coords net ! nat b)
                           (D ! nat a) (D ! nat b))
         (throats net (name geo))"
  have sv: "straight_values net geo pd = Inr ?raw"
    by (rule straight_values_wf[OF wf D])
  have "result (straight net geo pd) = Inr (map (\<lambda>x. if x < 0 then floor_length else x) ?raw)"
    by (simp only: result_straight sv sum.case)
  moreover have "length ?raw = length (throats net (name geo))"
    by simp
  moreover have "\<forall>i a b x1 y1 z1 x2 y2 z2.
            i < length (throats net (name geo)) \<longrightarrow>
            throat_conns net ! nat (throats net (name geo) ! i) = (a, b) \<longrightarrow>
            pore_coords net ! nat a = (x1, y1, z1) \<longrightarrow>
            pore_coords net ! nat b = (x2, y2, z2) \<longrightarrow>
            ?raw ! i = sqrt ((x1 - x2)\<^sup>2 + (y1 - y2)\<^sup>2 + (z1 - z2)\<^sup>2)
                      - (D ! nat a + D ! nat b) / 2"
    by (simp add: raw_length_def norm3_def psub_def)
  ultimately show "\<exists>raw. straight_values net geo pd = Inr raw \<and>
        result (straight net geo pd) = Inr (map (\<lambda>x. if x < 0 then floor_length else x) raw) \<and>
        length raw = length (throats net (name geo)) \<and>
        (\<forall>i a b x1 y1 z1 x2 y2 z2.
            i < length (throats net (name geo)) \<longrightarrow>
            throat_conns net ! nat (throats net (name geo) ! i) = (a, b) \<longrightarrow>
            pore_coords net ! nat a = (x1, y1, z1) \<longrightarrow>
            pore_coords net ! nat b = (x2, y2, z2) \<longrightarrow>
            raw ! i = sqrt ((x1 - x2)\<^sup>2 + (y1 - y2)\<^sup>2 + (z1 - z2)\<^sup>2)
                      - (D ! nat a + D ! nat b) / 2)"
    using sv by blast
next
  show "result (straight (two_pore_net 1) two_pore_geo default_pore_diameter) = Inr [2]"
    by (simp add: result_straight two_pore_values)
qed

theorem straight_lengths_witness:
  "straight_wf (two_pore_net 1) two_pore_geo default_pore_diameter \<and>
   props (two_pore_net 1) default_pore_diameter = Some [1, 1] \<and>
   straight_values (two_pore_net 1) two_pore_geo default_pore_diameter = Inr [2] \<and>
   result (straight (two_pore_net 1) two_pore_geo default_pore_diameter) = Inr [2]"
proof -
  have wf: "straight_wf (two_pore_net 1) two_pore_geo default_pore_diameter"
    by (rule two_pore_wf)
  have D: "props (two_pore_net 1) default_pore_diameter = Some [1, 1]"
    by (simp add: two_pore_net_def default_pore_diameter_def)
  from straight_lengths[of "two_pore_net 1" two_pore_geo default_pore_diameter "[1, 1]"] wf D
  obtain raw where sv: "straight_values (two_pore_net 1) two_pore_geo default_pore_diameter = Inr raw"
    and len: "length raw = length (throats (two_pore_net 1) (name two_pore_geo))"
    and val: "\<And>i a b x1 y1 z1 x2 y2 z2.
            i < length (throats (two_pore_net 1) (name two_pore_geo)) \<Longrightarrow>
            throat_conns (two_pore_net 1) ! nat (throats (two_pore_net 1) (name two_pore_geo) ! i) = (a, b) \<Longrightarrow>
            pore_coords (two_pore_net 1) ! nat a = (x1, y1, z1) \<Longrightarrow>
            pore_coords (two_pore_net 1) ! nat b = (x2, y2, z2) \<Longrightarrow>
            raw ! i = sqrt ((x1 - x2)\<^sup>2 + (y1 - y2)\<^sup>2 + (z1 - z2)\<^sup>2)
                      - ([1, 1] ! nat a + [1, 1] ! nat b) / 2"
    and res: "result (straight (two_pore_net 1) two_pore_geo default_pore_diameter) = Inr [2]"
    by blast
  from len have l1: "length raw = 1" by (simp add: two_pore_net_def)
  have "raw ! 0 = sqrt ((0 - 3)\<^sup>2 + (0 - 0)\<^sup>2 + (0 - 0)\<^sup>2) - ([1, 1] ! nat 0 + [1, 1] ! nat 1) / 2"
    by (rule val) (simp_all add: two_pore_net_def)
  then have "raw ! 0 = 2" by (simp add: sqrt_9)
  with l1 have "raw = [2]" by (cases raw) simp_all
  with sv wf D res show ?thesis by simp
qed

subsection \<open>voronoi: closed forms of its loops\<close>

lemma np_get_eq:
  "np_get xs i = (if in_bounds (length xs) i then Inr (xs ! resolve (length xs) i) else Inl IndexError)"
  by (auto simp: np_get_def in_bounds_def resolve_def Let_def)

lemma np_take_eq:
  "np_take xs idx =
     (if list_all (in_bounds (length xs)) idx then Inr (map (\<lambda>i. xs ! resolve (length xs) i) idx)
      else Inl IndexError)"
  by (induction idx) (simp_all add: np_get_eq)

lemma index_of_eq:
  "index_of pm p = (if p \<in> set pm then Inr (first_index pm p) else Inl NotInList)"
  by (induction pm) (auto simp: first_index_def)

lemma first_index_less: "p \<in> set pm \<Longrightarrow> first_index pm p < length pm"
  unfolding first_index_def by (induction pm) auto

lemma first_index_nth: "p \<in> set pm \<Longrightarrow> pm ! first_index pm p = p"
  unfolding first_index_def by (induction pm) auto

lemma first_index_least: "j < first_index pm p \<Longrightarrow> pm ! j \<noteq> p"
  unfolding first_index_def
proof (induction pm arbitrary: j)
  case Nil
  then show ?case by simp
next
  case (Cons x xs)
  then show ?case by (cases j) (auto split: if_splits)
qed

lemma first_index_unique:
  assumes "k < length pm" "pm ! k = p" "\<forall>j<k. pm ! j \<noteq> p"
  shows "first_index pm p = k"
proof -
  from assms have mem: "p \<in> set pm" by auto
  have "\<not> first_index pm p < k"
    using assms(3) first_index_nth[OF mem] by auto
  moreover have "\<not> k < first_index pm p"
    using first_index_least[of k pm p] assms(2) by auto
  ultimately show ?thesis by simp
qed

lemma lookup_all_eq:
  "lookup_all pm ps =
     (if list_all (\<lambda>p. p \<in> set pm) ps then Inr (map (\<lambda>p. int (first_index pm p)) ps)
      else Inl NotInList)"
  by (induction ps) (simp_all add: index_of_eq)

lemma norm_loop_eq:
  "norm_loop v1 v2 idx =
     (if list_all (\<lambda>i. i < length v1 \<and> i < length v2) idx
      then Inr (map (\<lambda>i. norm3 (v1 ! i) + norm3 (v2 ! i)) idx)
      else Inl IndexError)"
  by (induction idx) auto


lemma resolve_nat [simp]: "resolve n (int k) = k"
  by (simp add: resolve_def)

lemma in_bounds_nat [simp]: "in_bounds n (int k) \<longleftrightarrow> k < n"
  by (simp add: in_bounds_def)

lemma np_take_nat:
  "np_take xs (map int ks) =
     (if list_all (\<lambda>k. k < length xs) ks then Inr (map ((!) xs) ks) else Inl IndexError)"
  by (simp add: np_take_eq list_all_iff comp_def)

lemma broadcast_sub_eq:
  "broadcast_sub A B =
     (if broadcastable (length A) (length B)
      then Inr (map (\<lambda>k. psub (A ! row (length A) k) (B ! (if length B = 1 then 0 else k)))
                  [0 ..< (if length B = 1 then length A else length B)])
      else Inl BroadcastError)"
proof -
  consider (eq) "length A = length B"
    | (left) "length A \<noteq> length B" "length A = 1"
    | (right) "length A \<noteq> length B" "length A \<noteq> 1" "length B = 1"
    | (bad) "length A \<noteq> length B" "length A \<noteq> 1" "length B \<noteq> 1"
    by blast
  then show ?thesis
  proof cases
    case eq
    have "map2 psub A B = map (\<lambda>k. psub (A ! row (length A) k) (B ! (if length B = 1 then 0 else k)))
                  [0 ..< (if length B = 1 then length A else length B)]"
      using eq by (intro nth_equalityI) (auto simp: row_def)
    with eq show ?thesis by (simp add: broadcast_sub_def broadcastable_def)
  next
    case left
    then obtain a where A: "A = [a]" by (cases A) auto
    have "map (psub (hd A)) B = map (\<lambda>k. psub (A ! row (length A) k) (B ! (if length B = 1 then 0 else k)))
                  [0 ..< (if length B = 1 then length A else length B)]"
      using left by (intro nth_equalityI) (auto simp: row_def A)
    with left show ?thesis by (simp add: broadcast_sub_def broadcastable_def)
  next
    case right
    then obtain b where B: "B = [b]" by (cases B) auto
    have "map (\<lambda>a. psub a (hd B)) A = map (\<lambda>k. psub (A ! row (length A) k) (B ! (if length B = 1 then 0 else k)))
                  [0 ..< (if length B = 1 then length A else length B)]"
      using right by (intro nth_equalityI) (auto simp: row_def B)
    with right show ?thesis by (simp add: broadcast_sub_def broadcastable_def)
  next
    case bad
    then show ?thesis by (simp add: broadcast_sub_def broadcastable_def)
  qed
qed

lemma broadcast_rows:
  assumes "broadcast_sub A B = Inr v" "k < length B" "length B = 1 \<longrightarrow> 1 \<le> length A"
  shows "k < length v \<and> v ! k = psub (A ! row (length A) k) (B ! k)"
proof -
  from assms(1) have v: "v = map (\<lambda>k. psub (A ! row (length A) k) (B ! (if length B = 1 then 0 else k)))
                  [0 ..< (if length B = 1 then length A else length B)]"
    by (simp add: broadcast_sub_eq split: if_splits)
  show ?thesis
  proof (cases "length B = 1")
    case True
    with assms(2,3) have "k = 0" "0 < length A" by auto
    with True show ?thesis by (simp add: v)
  next
    case False
    with assms(2) show ?thesis by (simp add: v)
  qed
qed

lemma norm_loop_upt:
  assumes "\<forall>k<K. k < length v1 \<and> k < length v2"
  shows "norm_loop v1 v2 [0 ..< K] = Inr (map (\<lambda>k. norm3 (v1 ! k) + norm3 (v2 ! k)) [0 ..< K])"
  using assms by (simp add: norm_loop_eq list_all_iff)

lemma voronoi_tail:
  assumes g1: "length g1 = K" and g2: "length g2 = K"
  shows "and_then (np_take pc (map int g1)) (\<lambda>P1.
         and_then (broadcast_sub tc P1) (\<lambda>v1.
         and_then (np_take pc (map int g2)) (\<lambda>P2.
         and_then (broadcast_sub tc P2) (\<lambda>v2.
         norm_loop v1 v2 [0 ..< K])))) = Inr vs
     \<longleftrightarrow>
       list_all (\<lambda>g. g < length pc) g1 \<and> list_all (\<lambda>g. g < length pc) g2 \<and>
       broadcastable (length tc) K \<and> (K = 1 \<longrightarrow> 1 \<le> length tc) \<and>
       vs = map (\<lambda>k. norm3 (psub (tc ! row (length tc) k) (pc ! (g1 ! k)))
                    + norm3 (psub (tc ! row (length tc) k) (pc ! (g2 ! k)))) [0 ..< K]"
    (is "?lhs = Inr vs \<longleftrightarrow> ?rhs")
proof (cases "list_all (\<lambda>g. g < length pc) g1 \<and> list_all (\<lambda>g. g < length pc) g2 \<and>
       broadcastable (length tc) K")
  case False
  then show ?thesis
    using g1 g2 by (auto simp: np_take_nat broadcast_sub_eq)
next
  case True
  let ?P1 = "map ((!) pc) g1" and ?P2 = "map ((!) pc) g2"
  from True g1 g2 obtain v1 v2 where v1: "broadcast_sub tc ?P1 = Inr v1"
    and v2: "broadcast_sub tc ?P2 = Inr v2"
    by (auto simp: broadcast_sub_eq)
  have lhs: "?lhs = norm_loop v1 v2 [0 ..< K]"
    using True by (simp add: np_take_nat v1 v2)
  have lens: "length v1 = (if K = 1 then length tc else K)" "length v2 = (if K = 1 then length tc else K)"
    using v1 v2 g1 g2 by (auto simp: broadcast_sub_eq split: if_splits)
  show ?thesis
  proof (cases "K = 1 \<longrightarrow> 1 \<le> length tc")
    case False
    then have "norm_loop v1 v2 [0 ..< K] = Inl IndexError"
      using lens by (simp add: norm_loop_eq)
    with False lhs show ?thesis by simp
  next
    case ok: True
    have rows: "\<forall>k<K. k < length v1 \<and> k < length v2 \<and>
        v1 ! k = psub (tc ! row (length tc) k) (pc ! (g1 ! k)) \<and>
        v2 ! k = psub (tc ! row (length tc) k) (pc ! (g2 ! k))"
    proof (intro allI impI)
      fix k assume k: "k < K"
      from broadcast_rows[OF v1, of k] broadcast_rows[OF v2, of k] k g1 g2 ok
      show "k < length v1 \<and> k < length v2 \<and>
        v1 ! k = psub (tc ! row (length tc) k) (pc ! (g1 ! k)) \<and>
        v2 ! k = psub (tc ! row (length tc) k) (pc ! (g2 ! k))"
        by simp
    qed
    then have "norm_loop v1 v2 [0 ..< K] =
        Inr (map (\<lambda>k. norm3 (v1 ! k) + norm3 (v2 ! k)) [0 ..< K])"
      by (intro norm_loop_upt) simp
    also have "map (\<lambda>k. norm3 (v1 ! k) + norm3 (v2 ! k)) [0 ..< K] =
        map (\<lambda>k. norm3 (psub (tc ! row (length tc) k) (pc ! (g1 ! k)))
                    + norm3 (psub (tc ! row (length tc) k) (pc ! (g2 ! k)))) [0 ..< K]"
      using rows by (intro map_cong) simp_all
    finally show ?thesis using True ok lhs by auto
  qed
qed

lemma voronoi_result_Inr_iff:
  "voronoi_result net geo = Inr vs \<longleftrightarrow>
     list_all (in_bounds (length (throat_conns net))) (throat_map geo) \<and>
     list_all (mapped net geo) (throat_map geo) \<and>
     list_all (has_centroids net geo) (throat_map geo) \<and>
     shapes_ok geo \<and>
     vs = map (entry net geo) [0 ..< length (throat_map geo)]"
proof (cases "list_all (in_bounds (length (throat_conns net))) (throat_map geo) \<and>
     list_all (mapped net geo) (throat_map geo)")
  case False
  then show ?thesis
    by (auto simp: voronoi_result_def np_take_eq lookup_all_eq list_all_iff mapped_def conn_at_def)
next
  case True
  let ?tm = "throat_map geo" and ?pm = "pore_map geo"
  let ?g1 = "map (\<lambda>t. first_index ?pm (fst (conn_at net t))) ?tm"
  let ?g2 = "map (\<lambda>t. first_index ?pm (snd (conn_at net t))) ?tm"
  have red: "voronoi_result net geo =
        and_then (np_take (pore_centroid geo) (map int ?g1)) (\<lambda>P1.
         and_then (broadcast_sub (throat_centroid geo) P1) (\<lambda>v1.
         and_then (np_take (pore_centroid geo) (map int ?g2)) (\<lambda>P2.
         and_then (broadcast_sub (throat_centroid geo) P2) (\<lambda>v2.
         norm_loop v1 v2 [0 ..< length ?tm]))))"
    using True
    by (simp add: voronoi_result_def np_take_eq lookup_all_eq list_all_iff mapped_def conn_at_def
        comp_def)
  have vals: "map (\<lambda>k. norm3 (psub (throat_centroid geo ! row (length (throat_centroid geo)) k)
                              (pore_centroid geo ! (?g1 ! k)))
                    + norm3 (psub (throat_centroid geo ! row (length (throat_centroid geo)) k)
                              (pore_centroid geo ! (?g2 ! k)))) [0 ..< length ?tm]
        = map (entry net geo) [0 ..< length ?tm]"
    by (intro map_cong) (simp_all add: entry_def Let_def)
  have cent: "list_all (\<lambda>g. g < length (pore_centroid geo)) ?g1 \<and>
              list_all (\<lambda>g. g < length (pore_centroid geo)) ?g2
              \<longleftrightarrow> list_all (has_centroids net geo) ?tm"
    by (auto simp: list_all_iff has_centroids_def)
  show ?thesis
    unfolding red
    using voronoi_tail[of ?g1 "length ?tm" ?g2 "pore_centroid geo" "throat_centroid geo" vs]
      True cent
    by (simp only: vals shapes_ok_def length_map) blast
qed

lemma result_voronoi [simp]: "result (voronoi net geo) = voronoi_result net geo"
  by (simp add: voronoi_def)

lemma resolve_nonneg: "0 \<le> t \<Longrightarrow> resolve n t = nat t"
  by (simp add: resolve_def)

lemma conn_at_nonneg: "0 \<le> t \<Longrightarrow> conn_at net t = throat_conns net ! nat t"
  by (simp add: conn_at_def resolve_nonneg)

lemma in_range_bounds:
  "throats_in_range net geo \<Longrightarrow> list_all (in_bounds (length (throat_conns net))) (throat_map geo)"
  by (auto simp: throats_in_range_def list_all_iff in_bounds_def)

lemma mapped_iff:
  assumes "throats_in_range net geo"
  shows "list_all (mapped net geo) (throat_map geo) \<longleftrightarrow> pores_mapped net geo"
  using assms
  by (auto simp: throats_in_range_def pores_mapped_def list_all_iff mapped_def conn_at_nonneg)

lemma row_same: "k < K \<Longrightarrow> M = K \<Longrightarrow> row M k = k"
  by (auto simp: row_def)

lemma voronoi_wf_result:
  assumes wf: "voronoi_wf net geo"
  shows "voronoi_result net geo = Inr (map (entry net geo) [0 ..< length (throat_map geo)])"
proof -
  from wf have r: "throats_in_range net geo" and m: "pores_mapped net geo"
    and c: "centroids_match geo"
    by (simp_all add: voronoi_wf_def)
  have 1: "list_all (in_bounds (length (throat_conns net))) (throat_map geo)"
    by (rule in_range_bounds[OF r])
  have 2: "list_all (mapped net geo) (throat_map geo)"
    using m mapped_iff[OF r] by simp
  have 3: "list_all (has_centroids net geo) (throat_map geo)"
    using 2 c by (auto simp: list_all_iff has_centroids_def mapped_def centroids_match_def
        first_index_less)
  have 4: "shapes_ok geo"
    using c by (auto simp: shapes_ok_def broadcastable_def centroids_match_def)
  show ?thesis
    using 1 2 3 4 by (simp add: voronoi_result_Inr_iff)
qed

lemma upper_wf: "voronoi_wf (three_pore_net d) upper_geo"
  by (simp add: voronoi_wf_def throats_in_range_def pores_mapped_def centroids_match_def
      three_pore_net_def upper_geo_def)

subsection \<open>voronoi: the lengths it returns\<close>

text \<open>
  Claim C3. On a well-formed network and geometry, \<^verbatim>\<open>voronoi\<close> returns one value per
  entry of \<^verbatim>\<open>throat.map\<close>, in that order. The value of a throat is the Euclidean norm
  of (throat centroid - centroid of pore 1) plus that of (throat centroid - centroid of
  pore 2), where the centroid of a pore is read at the first position of \<^verbatim>\<open>pore.map\<close>
  that holds the pore's network index.
\<close>

theorem voronoi_lengths:
  "voronoi_wf net geo \<Longrightarrow>
     \<exists>vs. result (voronoi net geo) = Inr vs \<and>
       length vs = length (throat_map geo) \<and>
       (\<forall>i a b k1 k2 x y z x1 y1 z1 x2 y2 z2.
          i < length (throat_map geo) \<longrightarrow>
          throat_conns net ! nat (throat_map geo ! i) = (a, b) \<longrightarrow>
          k1 < length (pore_map geo) \<and> pore_map geo ! k1 = a \<and> (\<forall>j<k1. pore_map geo ! j \<noteq> a) \<longrightarrow>
          k2 < length (pore_map geo) \<and> pore_map geo ! k2 = b \<and> (\<forall>j<k2. pore_map geo ! j \<noteq> b) \<longrightarrow>
          throat_centroid geo ! i = (x, y, z) \<longrightarrow>
          pore_centroid geo ! k1 = (x1, y1, z1) \<longrightarrow>
          pore_centroid geo ! k2 = (x2, y2, z2) \<longrightarrow>
          vs ! i = sqrt ((x - x1)\<^sup>2 + (y - y1)\<^sup>2 + (z - z1)\<^sup>2)
                 + sqrt ((x - x2)\<^sup>2 + (y - y2)\<^sup>2 + (z - z2)\<^sup>2))"
proof -
  assume wf: "voronoi_wf net geo"
  let ?vs = "map (entry net geo) [0 ..< length (throat_map geo)]"
  from wf have r: "throats_in_range net geo" and c: "centroids_match geo"
    by (simp_all add: voronoi_wf_def)
  have res: "result (voronoi net geo) = Inr ?vs"
    using voronoi_wf_result[OF wf] by simp
  have val: "?vs ! i = sqrt ((x - x1)\<^sup>2 + (y - y1)\<^sup>2 + (z - z1)\<^sup>2)
                 + sqrt ((x - x2)\<^sup>2 + (y - y2)\<^sup>2 + (z - z2)\<^sup>2)"
    if i: "i < length (throat_map geo)"
      and ab: "throat_conns net ! nat (throat_map geo ! i) = (a, b)"
      and k1: "k1 < length (pore_map geo) \<and> pore_map geo ! k1 = a \<and> (\<forall>j<k1. pore_map geo ! j \<noteq> a)"
      and k2: "k2 < length (pore_map geo) \<and> pore_map geo ! k2 = b \<and> (\<forall>j<k2. pore_map geo ! j \<noteq> b)"
      and tc: "throat_centroid geo ! i = (x, y, z)"
      and p1: "pore_centroid geo ! k1 = (x1, y1, z1)"
      and p2: "pore_centroid geo ! k2 = (x2, y2, z2)"
    for i a b k1 k2 x y z x1 y1 z1 x2 y2 z2
  proof -
    from r i have "0 \<le> throat_map geo ! i"
      by (auto simp: throats_in_range_def list_all_length)
    then have cn: "conn_at net (throat_map geo ! i) = (a, b)"
      using ab by (simp add: conn_at_nonneg)
    have f1: "first_index (pore_map geo) a = k1" using k1 by (intro first_index_unique) simp_all
    have f2: "first_index (pore_map geo) b = k2" using k2 by (intro first_index_unique) simp_all
    have rw: "row (length (throat_centroid geo)) i = i"
      using i c by (intro row_same[of i "length (throat_map geo)"]) (simp_all add: centroids_match_def)
    show ?thesis
      using i by (simp add: entry_def cn f1 f2 rw tc p1 p2 norm3_def psub_def)
  qed
  show ?thesis
    using res val by (intro exI[of _ ?vs]) (simp del: nth_map nth_upt, blast)
qed

theorem voronoi_lengths_witness:
  "voronoi_wf (three_pore_net 2) upper_geo \<and> result (voronoi (three_pore_net 2) upper_geo) = Inr [7]"
proof -
  have wf: "voronoi_wf (three_pore_net 2) upper_geo" by (rule upper_wf)
  from voronoi_lengths[OF wf] obtain vs where
    res: "result (voronoi (three_pore_net 2) upper_geo) = Inr vs"
    and len: "length vs = length (throat_map upper_geo)"
    and val: "\<And>i a b k1 k2 x y z x1 y1 z1 x2 y2 z2.
          i < length (throat_map upper_geo) \<Longrightarrow>
          throat_conns (three_pore_net 2) ! nat (throat_map upper_geo ! i) = (a, b) \<Longrightarrow>
          k1 < length (pore_map upper_geo) \<and> pore_map upper_geo ! k1 = a \<and>
            (\<forall>j<k1. pore_map upper_geo ! j \<noteq> a) \<Longrightarrow>
          k2 < length (pore_map upper_geo) \<and> pore_map upper_geo ! k2 = b \<and>
            (\<forall>j<k2. pore_map upper_geo ! j \<noteq> b) \<Longrightarrow>
          throat_centroid upper_geo ! i = (x, y, z) \<Longrightarrow>
          pore_centroid upper_geo ! k1 = (x1, y1, z1) \<Longrightarrow>
          pore_centroid upper_geo ! k2 = (x2, y2, z2) \<Longrightarrow>
          vs ! i = sqrt ((x - x1)\<^sup>2 + (y - y1)\<^sup>2 + (z - z1)\<^sup>2)
                 + sqrt ((x - x2)\<^sup>2 + (y - y2)\<^sup>2 + (z - z2)\<^sup>2)"
    by blast
  have "vs ! 0 = sqrt ((0 - 3)\<^sup>2 + (4 - 4)\<^sup>2 + (0 - 0)\<^sup>2)
               + sqrt ((0 - 0)\<^sup>2 + (4 - 0)\<^sup>2 + (0 - 0)\<^sup>2)"
    by (rule val[of 0 0 2 1 0]) (simp_all add: three_pore_net_def upper_geo_def)
  then have "vs ! 0 = 7" by (simp add: sqrt_9 sqrt_16)
  moreover from len have "length vs = 1" by (simp add: upper_geo_def)
  ultimately have "vs = [7]" by (cases vs) simp_all
  with wf res show ?thesis by simp
qed

subsection \<open>voronoi: the pore that is not in the map\<close>



subsection \<open>straight: the clamp and the warning\<close>

lemma straight_values_length:
  assumes "straight_values net geo pd = Inr raw"
  shows "length raw = length (throats net (name geo))"
  using assms
  by (auto simp: straight_values_def Let_def and_then_eq_Inr np_take_eq split: if_splits)

lemma geo_after_straight:
  "straight_values net geo pd = Inr raw \<Longrightarrow>
   logger (geo_after (straight net geo pd)) =
     logger geo @ (if list_ex (\<lambda>x. x < 0) raw then [negative_warning] else [])"
  by (simp add: straight_Inr clamp_logger)

lemma geo_after_straight_error:
  "straight_values net geo pd = Inl e \<Longrightarrow> geo_after (straight net geo pd) = geo"
  by (simp add: straight_Inl raise_def)

lemma three_pore_whole_values:
  "straight_values (three_pore_net d) whole_geo default_pore_diameter = Inr [1 - d, 5 - d]"
  by (simp add: straight_values_def three_pore_net_def whole_geo_def default_pore_diameter_def
      np_get_def raw_length_def norm3_def psub_def)

lemma three_pore_upper_values:
  "straight_values (three_pore_net d) upper_geo default_pore_diameter = Inr [5 - d]"
  by (simp add: straight_values_def three_pore_net_def upper_geo_def default_pore_diameter_def
      np_get_def raw_length_def norm3_def psub_def)

text \<open>
  Claim C2. Whenever the lengths computed for the geometry's throats (line 26) contain a
  negative one, \<^verbatim>\<open>straight\<close> still returns a vector with one entry per throat of the
  geometry: every negative entry is replaced by the floor 1e-9, every other entry is
  kept, and one warning is sent to the geometry's logger.
\<close>

theorem straight_clamps_negative:
  "straight_values net geo pd = Inr raw \<Longrightarrow> \<exists>x \<in> set raw. x < 0 \<Longrightarrow>
     \<exists>vs. result (straight net geo pd) = Inr vs \<and>
       length vs = length (throats net (name geo)) \<and>
       (\<forall>i < length vs. vs ! i = (if raw ! i < 0 then floor_length else raw ! i)) \<and>
       floor_length = 1 / 10 ^ 9 \<and> 0 < floor_length \<and>
       logger (geo_after (straight net geo pd)) = logger geo @ [negative_warning]"
proof -
  assume sv: "straight_values net geo pd = Inr raw" and neg: "\<exists>x \<in> set raw. x < 0"
  let ?vs = "map (\<lambda>x. if x < 0 then floor_length else x) raw"
  have "result (straight net geo pd) = Inr ?vs"
    by (simp add: result_straight sv)
  moreover have "length ?vs = length (throats net (name geo))"
    using straight_values_length[OF sv] by simp
  moreover have "\<forall>i < length ?vs. ?vs ! i = (if raw ! i < 0 then floor_length else raw ! i)"
    by simp
  moreover have "floor_length = 1 / 10 ^ 9 \<and> 0 < floor_length"
    by (simp add: floor_length_def)
  moreover have "logger (geo_after (straight net geo pd)) = logger geo @ [negative_warning]"
    using neg by (simp add: geo_after_straight[OF sv] list_ex_iff)
  ultimately show ?thesis by blast
qed

theorem straight_clamps_negative_witness:
  "straight_values (two_pore_net 10) two_pore_geo default_pore_diameter = Inr [- 7] \<and>
   result (straight (two_pore_net 10) two_pore_geo default_pore_diameter) = Inr [1 / 10 ^ 9] \<and>
   logger (geo_after (straight (two_pore_net 10) two_pore_geo default_pore_diameter))
     = [negative_warning]"
proof -
  have sv: "straight_values (two_pore_net 10) two_pore_geo default_pore_diameter = Inr [- 7]"
    by (simp add: two_pore_values)
  have neg: "\<exists>x \<in> set [- 7 :: real]. x < 0" by simp
  from straight_clamps_negative[OF sv neg] obtain vs where
    res: "result (straight (two_pore_net 10) two_pore_geo default_pore_diameter) = Inr vs"
    and len: "length vs = length (throats (two_pore_net 10) (name two_pore_geo))"
    and val: "\<forall>i < length vs. vs ! i = (if [- 7 :: real] ! i < 0 then floor_length else [- 7] ! i)"
    and fl: "floor_length = 1 / 10 ^ 9"
    and lg: "logger (geo_after (straight (two_pore_net 10) two_pore_geo default_pore_diameter))
       = logger two_pore_geo @ [negative_warning]"
    by blast
  from len have l1: "length vs = 1" by (simp add: two_pore_net_def)
  with val have "vs ! 0 = floor_length" by simp
  with l1 fl have "vs = [1 / 10 ^ 9]" by (cases vs) simp_all
  with sv res lg show ?thesis by (simp add: two_pore_geo_def)
qed



text \<open>
  Claim C10. One call of \<^verbatim>\<open>straight\<close> sends at most one warning, however many entries
  are negative, and it sends one exactly when a length computed for a throat of the
  geometry is negative. In the three-pore network with diameter 2, throat 0 has the
  negative length -1; the geometry \<open>upper_geo\<close> does not own it, and its call sends no
  warning.
\<close>

theorem straight_warns_once:
  "(\<exists>ws. logger (geo_after (straight net geo pd)) = logger geo @ ws \<and>
         (ws = [] \<or> ws = [negative_warning]) \<and>
         (ws \<noteq> [] \<longleftrightarrow>
            (\<exists>raw. straight_values net geo pd = Inr raw \<and> (\<exists>x \<in> set raw. x < 0)))) \<and>
   straight_values (three_pore_net 2) whole_geo default_pore_diameter = Inr [- 1, 3] \<and>
   straight_values (three_pore_net 2) upper_geo default_pore_diameter = Inr [3] \<and>
   logger (geo_after (straight (three_pore_net 2) upper_geo default_pore_diameter))
     = logger upper_geo"
proof (intro conjI)
  show "\<exists>ws. logger (geo_after (straight net geo pd)) = logger geo @ ws \<and>
         (ws = [] \<or> ws = [negative_warning]) \<and>
         (ws \<noteq> [] \<longleftrightarrow>
            (\<exists>raw. straight_values net geo pd = Inr raw \<and> (\<exists>x \<in> set raw. x < 0)))"
  proof (cases "straight_values net geo pd")
    case (Inl e)
    then show ?thesis
      by (intro exI[of _ "[]"]) (simp add: geo_after_straight_error)
  next
    case (Inr raw)
    then show ?thesis
      by (intro exI[of _ "if list_ex (\<lambda>x. x < 0) raw then [negative_warning] else []"])
         (simp add: geo_after_straight list_ex_iff)
  qed
next
  show "straight_values (three_pore_net 2) whole_geo default_pore_diameter = Inr [- 1, 3]"
    by (simp add: three_pore_whole_values)
next
  show u: "straight_values (three_pore_net 2) upper_geo default_pore_diameter = Inr [3]"
    by (simp add: three_pore_upper_values)
  show "logger (geo_after (straight (three_pore_net 2) upper_geo default_pore_diameter))
     = logger upper_geo"
    by (simp add: geo_after_straight[OF u])
qed

theorem straight_warns_once_witness:
  "straight_values (three_pore_net 6) whole_geo default_pore_diameter = Inr [- 5, - 1] \<and>
   length (logger (geo_after (straight (three_pore_net 6) whole_geo default_pore_diameter))) = 1"
proof -
  have sv: "straight_values (three_pore_net 6) whole_geo default_pore_diameter = Inr [- 5, - 1]"
    by (simp add: three_pore_whole_values)
  then have neg: "\<exists>raw. straight_values (three_pore_net 6) whole_geo default_pore_diameter = Inr raw \<and>
      (\<exists>x \<in> set raw. x < 0)"
    by simp
  from straight_warns_once[of "three_pore_net 6" whole_geo default_pore_diameter] obtain ws where
    lg: "logger (geo_after (straight (three_pore_net 6) whole_geo default_pore_diameter))
       = logger whole_geo @ ws"
    and one: "ws = [] \<or> ws = [negative_warning]"
    and iff: "ws \<noteq> [] \<longleftrightarrow>
       (\<exists>raw. straight_values (three_pore_net 6) whole_geo default_pore_diameter = Inr raw \<and>
          (\<exists>x \<in> set raw. x < 0))"
    by blast
  from iff neg one have "ws = [negative_warning]" by blast
  with lg sv show ?thesis by (simp add: whole_geo_def)
qed

subsection \<open>Both functions: what a call leaves unchanged\<close>


subsection \<open>voronoi: exchanging the endpoints of a throat\<close>

lemma length_swap_conn [simp]:
  "length (throat_conns (swap_conn net t)) = length (throat_conns net)"
  by (simp add: swap_conn_def)

lemma conn_at_swap:
  "conn_at (swap_conn net t) i = conn_at net i \<or>
   conn_at (swap_conn net t) i = (snd (conn_at net i), fst (conn_at net i))"
proof (cases "t < length (throat_conns net)")
  case True
  then show ?thesis
    by (simp add: conn_at_def swap_conn_def nth_list_update)
next
  case False
  then have "(throat_conns net)[t := (snd (throat_conns net ! t), fst (throat_conns net ! t))]
      = throat_conns net"
    by (intro list_update_beyond) simp
  then show ?thesis
    by (simp add: conn_at_def swap_conn_def)
qed

lemma mapped_swap: "mapped (swap_conn net t) geo i \<longleftrightarrow> mapped net geo i"
  using conn_at_swap[of net t i] by (auto simp: mapped_def)

lemma has_centroids_swap: "has_centroids (swap_conn net t) geo i \<longleftrightarrow> has_centroids net geo i"
  using conn_at_swap[of net t i] by (auto simp: has_centroids_def)

lemma entry_swap: "entry (swap_conn net t) geo k = entry net geo k"
  using conn_at_swap[of net t "throat_map geo ! k"] by (auto simp: entry_def Let_def)

lemma two_pore_voronoi: "result (voronoi (two_pore_net d) two_pore_geo) = Inr [3]"
  by (simp add: voronoi_result_def two_pore_net_def two_pore_geo_def np_get_def
      broadcast_sub_def norm3_def psub_def)

text \<open>
  Claim C5. Whenever \<^verbatim>\<open>voronoi\<close> returns a vector, it returns the same vector for the
  network in which the two endpoints of any one throat are exchanged in
  \<^verbatim>\<open>throat.conns\<close>.
\<close>

theorem voronoi_endpoint_swap:
  "result (voronoi net geo) = Inr vs \<Longrightarrow> result (voronoi (swap_conn net t) geo) = Inr vs"
  by (simp add: voronoi_result_Inr_iff mapped_swap[abs_def] has_centroids_swap[abs_def]
      entry_swap[abs_def])

theorem voronoi_endpoint_swap_witness:
  "result (voronoi (two_pore_net 1) two_pore_geo) = Inr [3] \<and>
   throat_conns (two_pore_net 1) = [(0, 1)] \<and>
   throat_conns (swap_conn (two_pore_net 1) 0) = [(1, 0)] \<and>
   result (voronoi (swap_conn (two_pore_net 1) 0) two_pore_geo) = Inr [3]"
proof -
  have r: "result (voronoi (two_pore_net 1) two_pore_geo) = Inr [3]"
    by (rule two_pore_voronoi)
  have "result (voronoi (swap_conn (two_pore_net 1) 0) two_pore_geo) = Inr [3]"
    by (rule voronoi_endpoint_swap[OF r])
  with r show ?thesis by (simp add: swap_conn_def two_pore_net_def)
qed

subsection \<open>voronoi: the index translation and its replacements\<close>













end
